theory Spec2Isabelle
  imports Complex_Main
begin

section \<open>Errors and numpy values\<close>

text \<open>
  The exceptions that \<^verbatim>\<open>pims/display.py\<close> and the numpy calls it makes can raise.
  \<open>ShapeError\<close> and \<open>TypeMismatch\<close> are the two \<^verbatim>\<open>ValueError\<close>s raised by
  \<^verbatim>\<open>export\<close> (told apart by their message), \<open>InsufficientTints\<close> is the
  \<^verbatim>\<open>IndexError\<close> raised by \<^verbatim>\<open>to_rgb\<close>. The others are raised by the Python
  runtime or by numpy: a local variable read before assignment, a tuple index out of
  range, an integer division by zero, an axis out of bounds, \<^verbatim>\<open>min\<close>/\<^verbatim>\<open>max\<close> of an
  array without elements, a negative float raised to a fractional power.
\<close>

datatype error =
    ShapeError
  | TypeMismatch
  | InsufficientTints
  | UnboundLocalError
  | IndexError
  | ZeroDivisionError
  | AxisError
  | EmptyReduction
  | PowDomainError

definition bind_err :: "error + 'a \<Rightarrow> ('a \<Rightarrow> error + 'b) \<Rightarrow> error + 'b" where
  "bind_err m f = (case m of Inl e \<Rightarrow> Inl e | Inr x \<Rightarrow> f x)"

text \<open>
  A numpy array: its shape, its element type and its elements in row-major (C) order.
  Element values are exact: a float64 is a real number (rounding is not modelled), and
  an integer array holds integral reals within the range of its type.
\<close>

datatype dtype = UInt8 | UInt16 | Int64 | Float64

record 'a ndarray =
  shape :: "nat list"
  dtype :: dtype
  data :: "'a list"

definition wf_array :: "'a ndarray \<Rightarrow> bool" where
  "wf_array a = (length (data a) = prod_list (shape a))"

text \<open>
  The result of numpy's true division on floats: dividing by zero does not raise, it
  gives \<^verbatim>\<open>nan\<close> (for 0/0) or an infinity, with a warning only.
\<close>

datatype npfloat = Fin real | NaN | PInf | NInf

definition true_divide :: "real \<Rightarrow> real \<Rightarrow> npfloat" where
  "true_divide x y =
     (if y = 0 then (if x = 0 then NaN else if 0 < x then PInf else NInf)
      else Fin (x / y))"

text \<open>\<^verbatim>\<open>x * 255\<close> and \<^verbatim>\<open>255 * x\<close> on such a value.\<close>

fun times255 :: "npfloat \<Rightarrow> npfloat" where
  "times255 (Fin r) = Fin (255 * r)"
| "times255 NaN = NaN"
| "times255 PInf = PInf"
| "times255 NInf = NInf"

text \<open>
  Conversion of a float to uint8 truncates toward zero; a value outside 0..255 wraps
  here (no call below reaches one). The conversion of \<^verbatim>\<open>nan\<close> or of an infinity is
  not defined (the C cast behind \<^verbatim>\<open>astype\<close> is undefined there and numpy returns a
  platform-dependent number without raising): the element is \<open>None\<close>.
\<close>

definition trunc_uint8 :: "real \<Rightarrow> nat" where
  "trunc_uint8 r = nat ((if 0 \<le> r then \<lfloor>r\<rfloor> else \<lceil>r\<rceil>) mod 256)"

fun astype_uint8 :: "npfloat \<Rightarrow> nat option" where
  "astype_uint8 (Fin r) = Some (trunc_uint8 r)"
| "astype_uint8 NaN = None"
| "astype_uint8 PInf = None"
| "astype_uint8 NInf = None"

text \<open>\<^verbatim>\<open>arr.min()\<close> and \<^verbatim>\<open>arr.max()\<close>: numpy raises on an array without elements.\<close>

definition amin :: "('a::linorder) list \<Rightarrow> error + 'a" where
  "amin xs = (case xs of [] \<Rightarrow> Inl EmptyReduction | x # r \<Rightarrow> Inr (fold min r x))"

definition amax :: "('a::linorder) list \<Rightarrow> error + 'a" where
  "amax xs = (case xs of [] \<Rightarrow> Inl EmptyReduction | x # r \<Rightarrow> Inr (fold max r x))"

text \<open>\<^verbatim>\<open>t[i]\<close> on a tuple, for an index that is not negative.\<close>

definition py_index :: "'a list \<Rightarrow> nat \<Rightarrow> error + 'a" where
  "py_index xs i = (if i < length xs then Inr (xs ! i) else Inl IndexError)"

section \<open>wavelength\_to\_rgb\<close>

text \<open>
  \<^verbatim>\<open>x ** gamma\<close> on Python floats: \<^verbatim>\<open>x ** 0.0\<close> is 1.0 for every x, \<^verbatim>\<open>0.0 ** g\<close>
  raises for a negative g, and a negative base with a fractional exponent raises.
\<close>

definition py_pow :: "real \<Rightarrow> real \<Rightarrow> error + real" where
  "py_pow x g =
     (if g = 0 then Inr 1
      else if x = 0 then (if g < 0 then Inl ZeroDivisionError else Inr 0)
      else if 0 < x then Inr (x powr g)
      else if of_int \<lfloor>g\<rfloor> = g then Inr (power_int x \<lfloor>g\<rfloor>)
      else Inl PowDomainError)"

text \<open>The seven branches of the source, in its order; the result before scaling.\<close>

definition wavelength_bands :: "real \<Rightarrow> real \<Rightarrow> error + (real \<times> real \<times> real)" where
  "wavelength_bands wavelength gamma =
     (if wavelength \<ge> 380 \<and> wavelength \<le> 440 then
        (let attenuation = 0.3 + 0.7 * (wavelength - 380) / (440 - 380) in
         bind_err (py_pow ((- (wavelength - 440) / (440 - 380)) * attenuation) gamma) (\<lambda>R.
         bind_err (py_pow (1.0 * attenuation) gamma) (\<lambda>B.
         Inr (R, 0.0, B))))
      else if wavelength \<ge> 440 \<and> wavelength \<le> 490 then
         bind_err (py_pow ((wavelength - 440) / (490 - 440)) gamma) (\<lambda>G.
         Inr (0.0, G, 1.0))
      else if wavelength \<ge> 490 \<and> wavelength \<le> 510 then
         bind_err (py_pow (- (wavelength - 510) / (510 - 490)) gamma) (\<lambda>B.
         Inr (0.0, 1.0, B))
      else if wavelength \<ge> 510 \<and> wavelength \<le> 580 then
         bind_err (py_pow ((wavelength - 510) / (580 - 510)) gamma) (\<lambda>R.
         Inr (R, 1.0, 0.0))
      else if wavelength \<ge> 580 \<and> wavelength \<le> 645 then
         bind_err (py_pow (- (wavelength - 645) / (645 - 580)) gamma) (\<lambda>G.
         Inr (1.0, G, 0.0))
      else if wavelength \<ge> 645 \<and> wavelength \<le> 750 then
        (let attenuation = 0.3 + 0.7 * (750 - wavelength) / (750 - 645) in
         bind_err (py_pow (1.0 * attenuation) gamma) (\<lambda>R.
         Inr (R, 0.0, 0.0)))
      else Inr (0.0, 0.0, 0.0))"

text \<open>
  Each component is multiplied by 255 and converted with \<^verbatim>\<open>np.uint8\<close>. An RGB
  triple is three numbers below 256.
\<close>

type_synonym rgb = "nat \<times> nat \<times> nat"

definition wavelength_to_rgb :: "real \<Rightarrow> real \<Rightarrow> error + rgb" where
  "wavelength_to_rgb wavelength gamma =
     bind_err (wavelength_bands wavelength gamma) (\<lambda>(R, G, B).
       Inr (trunc_uint8 (R * 255), trunc_uint8 (G * 255), trunc_uint8 (B * 255)))"

text \<open>The default \<^verbatim>\<open>gamma=0.8\<close>.\<close>

definition default_gamma :: real where
  "default_gamma = 0.8"

section \<open>Array operations of numpy\<close>

text \<open>
  All index tuples of a shape in row-major order, and the position of an index tuple
  in the element list.
\<close>

fun all_indices :: "nat list \<Rightarrow> nat list list" where
  "all_indices [] = [[]]"
| "all_indices (n # ns) = concat (map (\<lambda>i. map ((#) i) (all_indices ns)) [0..<n])"

fun flat_index :: "nat list \<Rightarrow> nat list \<Rightarrow> nat" where
  "flat_index (n # ns) (i # idx) = i * prod_list ns + flat_index ns idx"
| "flat_index _ _ = 0"

definition valid_index :: "nat list \<Rightarrow> nat list \<Rightarrow> bool" where
  "valid_index sh idx = list_all2 (<) idx sh"

text \<open>\<^verbatim>\<open>a[i0, i1, ...]\<close> for an index tuple within the shape.\<close>

definition item :: "'a ndarray \<Rightarrow> nat list \<Rightarrow> 'a" where
  "item a idx = data a ! flat_index (shape a) idx"

text \<open>
  \<^verbatim>\<open>t.index(x)\<close>: the position of the first \<open>x\<close>. It is called only where \<open>x\<close>
  occurs (the source checks \<^verbatim>\<open>count\<close> first).
\<close>

fun index_of :: "'a \<Rightarrow> 'a list \<Rightarrow> nat" where
  "index_of x [] = 0"
| "index_of x (y # ys) = (if x = y then 0 else Suc (index_of x ys))"

text \<open>
  \<^verbatim>\<open>a.transpose(axes)\<close>: axis \<open>k\<close> of the result is axis \<open>axes[k]\<close> of \<open>a\<close>, so the
  element at \<open>j\<close> of the result is the element of \<open>a\<close> at the index \<open>i\<close> with
  \<open>i[axes[k]] = j[k]\<close>.
\<close>

definition source_index :: "nat list \<Rightarrow> nat list \<Rightarrow> nat list" where
  "source_index axes j = map (\<lambda>m. j ! index_of m axes) [0..<length axes]"

definition transpose_axes :: "'a ndarray \<Rightarrow> nat list \<Rightarrow> 'a ndarray" where
  "transpose_axes a axes =
     a\<lparr>shape := map (\<lambda>k. shape a ! k) axes,
       data := map (\<lambda>j. data a ! flat_index (shape a) (source_index axes j))
                 (all_indices (map (\<lambda>k. shape a ! k) axes))\<rparr>"

text \<open>
  \<^verbatim>\<open>np.rollaxis(a, axis, start)\<close> for indices that are not negative: numpy raises
  unless \<open>axis < a.ndim\<close> and \<open>start \<le> a.ndim\<close>, then moves \<open>axis\<close> in front of the
  axis that was at \<open>start\<close>.
\<close>

definition rollaxis :: "'a ndarray \<Rightarrow> nat \<Rightarrow> nat \<Rightarrow> error + 'a ndarray" where
  "rollaxis a axis start =
     (let n = length (shape a) in
      if \<not> axis < n then Inl AxisError
      else if \<not> start < n + 1 then Inl AxisError
      else
        (let start' = (if axis < start then start - 1 else start) in
         if axis = start' then Inr a
         else
           (let axes = remove1 axis [0..<n];
                axes' = take start' axes @ [axis] @ drop start' axes
            in Inr (transpose_axes a axes'))))"

text \<open>
  \<^verbatim>\<open>np.expand_dims(a, axis)\<close> inserts an axis of length 1; the elements stay.
  (Early numpy versions accepted an axis beyond the rank and appended the new axis; the
  \<^verbatim>\<open>np.repeat\<close> that follows it in the source raises in that case, so that an
  exception is the outcome with either version.)
\<close>

definition expand_dims :: "'a ndarray \<Rightarrow> nat \<Rightarrow> error + 'a ndarray" where
  "expand_dims a axis =
     (if axis \<le> length (shape a)
      then Inr (a\<lparr>shape := take axis (shape a) @ [1] @ drop axis (shape a)\<rparr>)
      else Inl AxisError)"

text \<open>
  \<^verbatim>\<open>np.repeat(a, r, axis)\<close> repeats every slice along \<open>axis\<close> \<open>r\<close> times in place. In
  row-major order a slice is a block of \<open>inner\<close> consecutive elements, \<open>inner\<close> the
  product of the lengths of the axes after \<open>axis\<close>.
\<close>

definition blocks :: "nat \<Rightarrow> 'a list \<Rightarrow> 'a list list" where
  "blocks inner xs = map (\<lambda>k. take inner (drop (k * inner) xs)) [0..<length xs div inner]"

definition np_repeat :: "'a ndarray \<Rightarrow> nat \<Rightarrow> nat \<Rightarrow> error + 'a ndarray" where
  "np_repeat a r axis =
     (if axis < length (shape a) then
        (let inner = prod_list (drop (Suc axis) (shape a)) in
         Inr (a\<lparr>shape := (shape a)[axis := r * (shape a ! axis)],
                data := concat (map (\<lambda>b. concat (replicate r b)) (blocks inner (data a)))\<rparr>))
      else Inl AxisError)"

text \<open>\<^verbatim>\<open>a[i]\<close>: the sub-array at position \<open>i\<close> of the first axis.\<close>

definition subarray :: "'a ndarray \<Rightarrow> nat \<Rightarrow> 'a ndarray" where
  "subarray a i =
     (let p = prod_list (tl (shape a)) in
      a\<lparr>shape := tl (shape a), data := take p (drop (i * p) (data a))\<rparr>)"

section \<open>Brightness normalization and bitrate\<close>

text \<open>
  \<^verbatim>\<open>_normalize\<close>: the peak-to-peak range, replaced by 1 for a flat image, divides the
  shifted array. The divisor is never 0, so the result is finite.
\<close>

definition normalize_arr :: "real ndarray \<Rightarrow> error + real ndarray" where
  "normalize_arr arr =
     bind_err (amax (data arr)) (\<lambda>mx.
     bind_err (amin (data arr)) (\<lambda>mn.
       (let ptp = mx - mn;
            ptp = (if ptp = 0 then 1 else ptp)
        in Inr (arr\<lparr>dtype := Float64, data := map (\<lambda>x. (x - mn) / ptp) (data arr)\<rparr>))))"

text \<open>\<^verbatim>\<open>_estimate_bitrate\<close>: \<^verbatim>\<open>shape[0] * shape[1] * 8 * 3 * frame_rate\<close>.\<close>

definition estimate_bitrate :: "nat list \<Rightarrow> int \<Rightarrow> error + int" where
  "estimate_bitrate shp frame_rate =
     bind_err (py_index shp 0) (\<lambda>s0.
     bind_err (py_index shp 1) (\<lambda>s1.
       Inr (int s0 * int s1 * 8 * 3 * frame_rate)))"

section \<open>export\<close>

text \<open>
  The PyAV container and its stream are outside the repository. What \<^verbatim>\<open>export\<close>
  does to them is recorded: the stream attributes it assigns (\<open>None\<close> while the
  encoder's default stands), the frames handed to \<^verbatim>\<open>encode\<close> and \<^verbatim>\<open>mux\<close>, and
  whether \<^verbatim>\<open>output.close()\<close> was called. The encoder is taken to accept every frame.
\<close>

record encoder =
  bit_rate :: "int option"
  stream_width :: "int option"
  stream_height :: "int option"
  muxed :: "nat option ndarray list"
  is_closed :: bool

definition opened :: encoder where
  "opened = \<lparr>bit_rate = None, stream_width = None, stream_height = None,
             muxed = [], is_closed = False\<rparr>"

record export_args =
  rate :: int
  bitrate :: "int option"
  width :: "int option"
  height :: "int option"
  autoscale :: bool

text \<open>The defaults of the signature: \<^verbatim>\<open>rate=30\<close>, the rest unset, \<^verbatim>\<open>autoscale=True\<close>.\<close>

definition default_args :: export_args where
  "default_args = \<lparr>rate = 30, bitrate = None, width = None, height = None,
                   autoscale = True\<rparr>"

text \<open>
  The set-up on the first frame (the block under \<^verbatim>\<open>if not frame_no\<close>). It reads
  \<^verbatim>\<open>img.shape\<close> as the frame comes, before any change of axes. The stream attributes
  assigned before an exception stay assigned. \<^verbatim>\<open>height or e\<close> takes \<open>e\<close> when
  \<open>height\<close> is \<^verbatim>\<open>None\<close> or 0, and \<^verbatim>\<open>//\<close> is floor division.
\<close>

definition setup_bitrate :: "export_args \<Rightarrow> nat list \<Rightarrow> encoder \<Rightarrow> error option \<times> encoder" where
  "setup_bitrate args shp enc =
     (case bitrate args of
        None \<Rightarrow>
          (case estimate_bitrate shp (rate args) of
             Inl e \<Rightarrow> (Some e, enc)
           | Inr b \<Rightarrow> (None, enc\<lparr>bit_rate := Some b\<rparr>))
      | Some b \<Rightarrow> (None, enc))"

definition setup_geometry :: "export_args \<Rightarrow> nat list \<Rightarrow> encoder \<Rightarrow> error option \<times> encoder" where
  "setup_geometry args shp enc =
     (case width args of
        None \<Rightarrow>
          (case py_index shp 0 of
             Inl e \<Rightarrow> (Some e, enc)
           | Inr s0 \<Rightarrow>
               (let enc1 = enc\<lparr>stream_height := Some (int s0)\<rparr> in
                case py_index shp 1 of
                  Inl e \<Rightarrow> (Some e, enc1)
                | Inr s1 \<Rightarrow> (None, enc1\<lparr>stream_width := Some (int s1)\<rparr>)))
      | Some w \<Rightarrow>
          (let enc1 = enc\<lparr>stream_width := Some w\<rparr> in
           if height args \<noteq> None \<and> height args \<noteq> Some 0
           then (None, enc1\<lparr>stream_height := height args\<rparr>)
           else
             (case py_index shp 0 of
                Inl e \<Rightarrow> (Some e, enc1)
              | Inr s0 \<Rightarrow>
                  (case py_index shp 1 of
                     Inl e \<Rightarrow> (Some e, enc1)
                   | Inr s1 \<Rightarrow>
                       if s1 = 0 then (Some ZeroDivisionError, enc1)
                       else (None, enc1\<lparr>stream_height := Some (w * int s0 div int s1)\<rparr>)))))"

definition setup_stream :: "export_args \<Rightarrow> nat list \<Rightarrow> encoder \<Rightarrow> error option \<times> encoder" where
  "setup_stream args shp enc =
     (case setup_bitrate args shp enc of
        (Some e, enc1) \<Rightarrow> (Some e, enc1)
      | (None, enc1) \<Rightarrow> setup_geometry args shp enc1)"

text \<open>
  The shape step of every frame (\<^verbatim>\<open>if ndim == 3 ... elif ndim == 2 ... else\<close>), with
  \<open>ndim\<close> the rank of the first frame.
\<close>

definition canonical_shape :: "nat \<Rightarrow> 'a ndarray \<Rightarrow> error + 'a ndarray" where
  "canonical_shape ndim img =
     (if ndim = 3 then
        (if count_list (shape img) 3 \<noteq> 1 then Inl ShapeError
         else
           (let color_axis = index_of 3 (shape img) in
            rollaxis img color_axis 3))
      else if ndim = 2 then
        bind_err (expand_dims img 2) (\<lambda>e. np_repeat e 3 2)
      else Inl ShapeError)"

text \<open>
  \<^verbatim>\<open>img.dtype is not np.uint8\<close> compares object identities. \<^verbatim>\<open>img.dtype\<close> is an
  instance of \<^verbatim>\<open>numpy.dtype\<close>, \<^verbatim>\<open>np.uint8\<close> is a scalar type (a class): two kinds
  of objects, kept apart here by their constructor.
\<close>

datatype pyobj = DtypeInstance dtype | ScalarType dtype

definition py_is :: "pyobj \<Rightarrow> pyobj \<Rightarrow> bool" where
  "py_is a b = (a = b)"

text \<open>
  The autoscale step: \<^verbatim>\<open>normed = (img - img.min()) / (img.max() - img.min())\<close>, then
  \<^verbatim>\<open>(255 * normed).astype('uint8')\<close>. The division is numpy's: no exception.
\<close>

definition autoscale_frame :: "real ndarray \<Rightarrow> error + nat option ndarray" where
  "autoscale_frame img =
     bind_err (amin (data img)) (\<lambda>mn.
     bind_err (amax (data img)) (\<lambda>mx.
       Inr \<lparr>shape = shape img, dtype = UInt8,
            data = map (\<lambda>x. astype_uint8 (times255 (true_divide (x - mn) (mx - mn))))
                     (data img)\<rparr>))"

text \<open>A frame passed on as it is (its elements are bytes already).\<close>

definition as_bytes :: "real ndarray \<Rightarrow> nat option ndarray" where
  "as_bytes img =
     \<lparr>shape = shape img, dtype = dtype img, data = map (\<lambda>x. Some (trunc_uint8 x)) (data img)\<rparr>"

text \<open>The body of the loop after the set-up, for one frame.\<close>

definition encode_frame :: "bool \<Rightarrow> nat \<Rightarrow> real ndarray \<Rightarrow> encoder \<Rightarrow> error option \<times> encoder" where
  "encode_frame autosc ndim img enc =
     (case canonical_shape ndim img of
        Inl e \<Rightarrow> (Some e, enc)
      | Inr img1 \<Rightarrow>
          if \<not> py_is (DtypeInstance (dtype img1)) (ScalarType UInt8) \<and> \<not> autosc
          then (Some TypeMismatch, enc)
          else
            (case (if autosc then autoscale_frame img1 else Inr (as_bytes img1)) of
               Inl e \<Rightarrow> (Some e, enc)
             | Inr img2 \<Rightarrow> (None, enc\<lparr>muxed := muxed enc @ [img2]\<rparr>)))"

fun export_loop :: "bool \<Rightarrow> nat \<Rightarrow> real ndarray list \<Rightarrow> encoder \<Rightarrow> error option \<times> encoder" where
  "export_loop autosc ndim [] enc = (None, enc)"
| "export_loop autosc ndim (img # rest) enc =
     (case encode_frame autosc ndim img enc of
        (Some e, enc1) \<Rightarrow> (Some e, enc1)
      | (None, enc1) \<Rightarrow> export_loop autosc ndim rest enc1)"

text \<open>
  \<^verbatim>\<open>export\<close>: the error that leaves the function, if any, and the encoder as it is
  left. \<^verbatim>\<open>output.close()\<close> is the statement after the loop.
\<close>

definition export :: "real ndarray list \<Rightarrow> export_args \<Rightarrow> error option \<times> encoder" where
  "export sequence args =
     (case sequence of
        [] \<Rightarrow> (None, opened\<lparr>is_closed := True\<rparr>)
      | img # rest \<Rightarrow>
          (case setup_stream args (shape img) opened of
             (Some e, enc) \<Rightarrow> (Some e, enc)
           | (None, enc) \<Rightarrow>
               (case export_loop (autoscale args) (length (shape img)) (img # rest) enc of
                  (Some e, enc1) \<Rightarrow> (Some e, enc1)
                | (None, enc1) \<Rightarrow> (None, enc1\<lparr>is_closed := True\<rparr>))))"

section \<open>to\_rgb\<close>

text \<open>
  The \<^verbatim>\<open>wavelengths\<close> argument: \<^verbatim>\<open>None\<close>, one number, or a list of numbers.
\<close>

datatype wavelengths_arg = NoWavelengths | Scalar real | Wavelengths "real list"

text \<open>The standard colours: green, magenta, blue, red.\<close>

definition default_tints :: "rgb list" where
  "default_tints = [(0, 255, 0), (255, 0, 255), (0, 0, 255), (255, 0, 0)]"

fun map_err :: "('a \<Rightarrow> error + 'b) \<Rightarrow> 'a list \<Rightarrow> error + 'b list" where
  "map_err f [] = Inr []"
| "map_err f (x # xs) = bind_err (f x) (\<lambda>y. bind_err (map_err f xs) (\<lambda>ys. Inr (y # ys)))"

text \<open>
  The tints (\<^verbatim>\<open>rgbs\<close>). Slicing a number raises \<^verbatim>\<open>TypeError\<close>, which the source
  catches to take the number as the one wavelength; a list is cut to \<open>channels\<close>
  entries and mapped with the default \<^verbatim>\<open>gamma\<close>.
\<close>

definition identify_rgbs :: "nat \<Rightarrow> wavelengths_arg \<Rightarrow> error + rgb list" where
  "identify_rgbs channels wavelengths =
     (case wavelengths of
        NoWavelengths \<Rightarrow> Inr (take channels default_tints)
      | Wavelengths ws \<Rightarrow> map_err (\<lambda>nm. wavelength_to_rgb nm default_gamma) (take channels ws)
      | Scalar w \<Rightarrow> bind_err (wavelength_to_rgb w default_gamma) (\<lambda>c. Inr [c]))"

text \<open>The number of wavelengths a caller supplied.\<close>

fun supplied :: "wavelengths_arg \<Rightarrow> nat option" where
  "supplied NoWavelengths = None"
| "supplied (Scalar w) = Some 1"
| "supplied (Wavelengths ws) = Some (length ws)"

fun rgb_component :: "rgb \<Rightarrow> nat \<Rightarrow> nat" where
  "rgb_component (r, g, b) k = (if k = 0 then r else if k = 1 then g else b)"

text \<open>
  \<^verbatim>\<open>_monochannel_to_rgb\<close>: normalize, add a last axis and repeat it three times,
  multiply by the tint along that axis (element \<open>p\<close> of the row-major list lies at
  position \<open>p mod 3\<close> of the last axis), convert to uint8.
\<close>

definition monochannel_to_rgb :: "real ndarray \<Rightarrow> rgb \<Rightarrow> error + nat ndarray" where
  "monochannel_to_rgb img rgb =
     bind_err (normalize_arr img) (\<lambda>image_rgb.
     bind_err (expand_dims image_rgb (length (shape image_rgb))) (\<lambda>expanded.
     bind_err (np_repeat expanded 3 (length (shape image_rgb))) (\<lambda>repeated.
       Inr \<lparr>shape = shape repeated, dtype = UInt8,
            data = map (\<lambda>(p, x). trunc_uint8 (x * real (rgb_component rgb (p mod 3))))
                     (enumerate 0 (data repeated))\<rparr>)))"

text \<open>\<^verbatim>\<open>np.zeros(shape_rgb, dtype=np.uint16)\<close> and \<^verbatim>\<open>result += m\<close> on it.\<close>

definition zeros_uint16 :: "nat list \<Rightarrow> nat ndarray" where
  "zeros_uint16 shp = \<lparr>shape = shp, dtype = UInt16, data = replicate (prod_list shp) 0\<rparr>"

definition iadd_uint16 :: "nat ndarray \<Rightarrow> nat ndarray \<Rightarrow> nat ndarray" where
  "iadd_uint16 result m =
     result\<lparr>data := map (\<lambda>(a, b). (a + b) mod 65536) (zip (data result) (data m))\<rparr>"

text \<open>The loop \<^verbatim>\<open>for i in range(channels)\<close> over the remaining values of \<open>i\<close>.\<close>

fun accumulate :: "real ndarray \<Rightarrow> rgb list \<Rightarrow> nat list \<Rightarrow> nat ndarray \<Rightarrow> error + nat ndarray" where
  "accumulate img rgbs [] result = Inr result"
| "accumulate img rgbs (i # rest) result =
     bind_err (py_index rgbs i) (\<lambda>rgb.
     bind_err (monochannel_to_rgb (subarray img i) rgb) (\<lambda>m.
       accumulate img rgbs rest (iadd_uint16 result m)))"

text \<open>
  Reading a local variable: Python raises when no assignment to it has run. A local is
  \<open>None\<close> until then.
\<close>

definition read_local :: "'a option \<Rightarrow> error + 'a" where
  "read_local v = (case v of None \<Rightarrow> Inl UnboundLocalError | Some x \<Rightarrow> Inr x)"

definition is_multichannel :: "'a ndarray \<Rightarrow> bool" where
  "is_multichannel img = (length (shape img) > 2 \<and> hd (shape img) < 5)"

definition channels :: "'a ndarray \<Rightarrow> nat" where
  "channels img = (if is_multichannel img then hd (shape img) else 1)"

definition shape_rgb :: "'a ndarray \<Rightarrow> nat list" where
  "shape_rgb img = (if is_multichannel img then tl (shape img) else shape img) @ [3]"

text \<open>
  \<^verbatim>\<open>to_rgb\<close> up to the last block: \<open>result\<close> before the final normalization. The
  only assignment to the local \<open>i\<close> is the \<^verbatim>\<open>for\<close> of the multichannel branch, so
  in the other branch \<open>i\<close> is read as it was at entry.
\<close>

definition to_rgb_result :: "real ndarray \<Rightarrow> wavelengths_arg \<Rightarrow> error + nat ndarray" where
  "to_rgb_result img wavelengths =
     (let i = (None :: nat option) in
      bind_err (identify_rgbs (channels img) wavelengths) (\<lambda>rgbs.
        if channels img \<noteq> length rgbs then Inl InsufficientTints
        else if is_multichannel img then
          accumulate img rgbs [0..<channels img] (zeros_uint16 (shape_rgb img))
        else
          bind_err (read_local i) (\<lambda>i.
          bind_err (py_index rgbs i) (\<lambda>rgb.
            monochannel_to_rgb img rgb))))"

text \<open>
  The last block: \<^verbatim>\<open>norm = result.max()\<close> and
  \<^verbatim>\<open>(result / norm * 255).astype('uint8')\<close>, with numpy's division.
\<close>

definition to_rgb :: "real ndarray \<Rightarrow> wavelengths_arg \<Rightarrow> bool \<Rightarrow> error + nat option ndarray" where
  "to_rgb img wavelengths do_normalize =
     bind_err (to_rgb_result img wavelengths) (\<lambda>result.
       if is_multichannel img \<and> do_normalize then
         bind_err (amax (data result)) (\<lambda>norm.
           Inr \<lparr>shape = shape result, dtype = UInt8,
                data = map (\<lambda>x. astype_uint8 (times255 (true_divide (real x) (real norm))))
                         (data result)\<rparr>)
       else Inr \<lparr>shape = shape result, dtype = dtype result, data = map Some (data result)\<rparr>)"

section \<open>Sample inputs\<close>

text \<open>Small arrays on which the functions are evaluated below.\<close>

definition flat_frame :: "real ndarray" where
  "flat_frame = \<lparr>shape = [2, 2], dtype = Float64, data = [5, 5, 5, 5]\<rparr>"

definition gray_frame :: "real ndarray" where
  "gray_frame = \<lparr>shape = [2, 3], dtype = UInt8, data = [0, 51, 102, 153, 204, 255]\<rparr>"

definition rank4_frame :: "real ndarray" where
  "rank4_frame = \<lparr>shape = [1, 1, 1, 2], dtype = UInt8, data = [0, 1]\<rparr>"

definition chw_frame :: "real ndarray" where
  "chw_frame = \<lparr>shape = [3, 2, 2], dtype = UInt8,
                 data = [0, 1, 2, 3, 10, 11, 12, 13, 20, 21, 22, 23]\<rparr>"

definition flat_channels :: "real ndarray" where
  "flat_channels = \<lparr>shape = [2, 1, 2], dtype = Float64, data = [7, 7, 9, 9]\<rparr>"

definition two_channel :: "real ndarray" where
  "two_channel = \<lparr>shape = [2, 1, 2], dtype = Float64, data = [0, 1, 2, 3]\<rparr>"

section \<open>Properties of wavelength\_to\_rgb\<close>

lemma green_red_level: "\<lfloor>((4 / 7) powr (4 / 5) :: real) * 255\<rfloor> = 162"
proof -
  define x :: real where "x = (4 / 7) powr (4 / 5)"
  have rt: "a = (a ^ 5) powr (1 / 5)" if "0 < a" for a :: real
  proof -
    have "(a powr 5) powr (1 / 5) = a powr (5 * (1 / 5))"
      by (rule powr_powr)
    moreover have "a powr 5 = a ^ 5"
      using that by simp
    ultimately show ?thesis using that by simp
  qed
  have x5: "x = ((4 / 7) ^ 4) powr (1 / 5)"
  proof -
    have "((4 / 7 :: real) powr 4) powr (1 / 5) = (4 / 7) powr (4 * (1 / 5))"
      by (rule powr_powr)
    moreover have "(4 / 7 :: real) powr 4 = (4 / 7) ^ 4"
      by simp
    ultimately show ?thesis by (simp add: x_def)
  qed
  have lo: "(162 / 255 :: real) < x"
  proof -
    have "((162 / 255 :: real) ^ 5) powr (1 / 5) < ((4 / 7) ^ 4) powr (1 / 5)"
      by (rule powr_less_mono2) (simp_all add: power_divide)
    then show ?thesis using rt [of "162 / 255"] x5 by simp
  qed
  have hi: "x < (163 / 255 :: real)"
  proof -
    have "((4 / 7 :: real) ^ 4) powr (1 / 5) < ((163 / 255) ^ 5) powr (1 / 5)"
      by (rule powr_less_mono2) (simp_all add: power_divide)
    then show ?thesis using rt [of "163 / 255"] x5 by simp
  qed
  have "\<lfloor>x * 255\<rfloor> = 162"
    using lo hi by (intro floor_unique) simp_all
  then show ?thesis by (simp add: x_def)
qed

lemma wavelength_550: "wavelength_to_rgb 550 default_gamma = Inr (162, 255, 0)"
proof -
  have b: "wavelength_bands 550 default_gamma = Inr ((4 / 7) powr (4 / 5), 1, 0)"
    by (simp add: wavelength_bands_def default_gamma_def bind_err_def py_pow_def)
  have r: "trunc_uint8 ((4 / 7) powr (4 / 5) * 255) = 162"
    using green_red_level by (simp add: trunc_uint8_def)
  show ?thesis
    by (simp add: wavelength_to_rgb_def b bind_err_def r) (simp add: trunc_uint8_def)
qed

lemma wavelength_300: "wavelength_to_rgb 300 default_gamma = Inr (0, 0, 0)"
  by (simp add: wavelength_to_rgb_def wavelength_bands_def bind_err_def trunc_uint8_def)

lemma wavelength_800: "wavelength_to_rgb 800 default_gamma = Inr (0, 0, 0)"
  by (simp add: wavelength_to_rgb_def wavelength_bands_def bind_err_def trunc_uint8_def)

text \<open>
  Claim C6, as stated: \<^verbatim>\<open>wavelength_to_rgb(550)\<close> has G = 255 and both R and B near 0.
  It fails on R. 550 nm lies in the band 510--580, where R ramps up as
  \<open>((\<lambda> - 510) / 70) ** gamma\<close>: at 550 that is \<open>(4/7) ** 0.8\<close>, about 0.639, and the
  byte is 162. Even reading "near 0" as "at most 127", half of the scale, the claim is
  false.
\<close>

theorem wavelength_550_red_counterexample:
  "\<not> (case wavelength_to_rgb 550 default_gamma of
         Inl e \<Rightarrow> False
       | Inr (r, g, b) \<Rightarrow> g = 255 \<and> r \<le> 127 \<and> b \<le> 127)"
  by (simp add: wavelength_550)

text \<open>
  Claim C6, amended: \<^verbatim>\<open>wavelength_to_rgb(550)\<close> is (162, 255, 0), that is G = 255,
  B = 0 and R = 162; \<^verbatim>\<open>wavelength_to_rgb(300)\<close> and \<^verbatim>\<open>wavelength_to_rgb(800)\<close>
  are both (0, 0, 0).
\<close>

theorem wavelength_to_rgb_values:
  "wavelength_to_rgb 550 default_gamma = Inr (162, 255, 0)
   \<and> wavelength_to_rgb 300 default_gamma = Inr (0, 0, 0)
   \<and> wavelength_to_rgb 800 default_gamma = Inr (0, 0, 0)"
  by (simp add: wavelength_550 wavelength_300 wavelength_800)

lemma py_pow_nonneg: "0 \<le> x \<Longrightarrow> 0 < g \<Longrightarrow> \<exists>y. py_pow x g = Inr y"
  by (simp add: py_pow_def)

lemma bind_err_Inr: "m = Inr x \<Longrightarrow> bind_err m f = f x"
  by (simp add: bind_err_def)

text \<open>
  With the default \<open>gamma\<close> no band raises: every base of a power is at least 0
  inside its band.
\<close>

lemma wavelength_bands_total: "\<exists>c. wavelength_bands w default_gamma = Inr c"
proof -
  have g: "0 < default_gamma" by (simp add: default_gamma_def)
  have p: "\<exists>y. py_pow x default_gamma = Inr y" if "0 \<le> x" for x
    using py_pow_nonneg [OF that g] .
  consider (a) "380 \<le> w \<and> w \<le> 440"
    | (b) "\<not> (380 \<le> w \<and> w \<le> 440)" "440 \<le> w \<and> w \<le> 490"
    | (c) "\<not> (380 \<le> w \<and> w \<le> 440)" "\<not> (440 \<le> w \<and> w \<le> 490)"
          "490 \<le> w \<and> w \<le> 510"
    | (d) "\<not> (380 \<le> w \<and> w \<le> 440)" "\<not> (440 \<le> w \<and> w \<le> 490)"
          "\<not> (490 \<le> w \<and> w \<le> 510)" "510 \<le> w \<and> w \<le> 580"
    | (e) "\<not> (380 \<le> w \<and> w \<le> 440)" "\<not> (440 \<le> w \<and> w \<le> 490)"
          "\<not> (490 \<le> w \<and> w \<le> 510)" "\<not> (510 \<le> w \<and> w \<le> 580)"
          "580 \<le> w \<and> w \<le> 645"
    | (f) "\<not> (380 \<le> w \<and> w \<le> 440)" "\<not> (440 \<le> w \<and> w \<le> 490)"
          "\<not> (490 \<le> w \<and> w \<le> 510)" "\<not> (510 \<le> w \<and> w \<le> 580)"
          "\<not> (580 \<le> w \<and> w \<le> 645)" "645 \<le> w \<and> w \<le> 750"
    | (g) "\<not> (380 \<le> w \<and> w \<le> 440)" "\<not> (440 \<le> w \<and> w \<le> 490)"
          "\<not> (490 \<le> w \<and> w \<le> 510)" "\<not> (510 \<le> w \<and> w \<le> 580)"
          "\<not> (580 \<le> w \<and> w \<le> 645)" "\<not> (645 \<le> w \<and> w \<le> 750)"
    by blast
  then show ?thesis
  proof cases
    case a
    have "0 \<le> (- (w - 440) / (440 - 380)) * (0.3 + 0.7 * (w - 380) / (440 - 380))"
      using a by (intro mult_nonneg_nonneg) simp_all
    from p [OF this] obtain r
      where r: "py_pow ((- (w - 440) / (440 - 380)) * (0.3 + 0.7 * (w - 380) / (440 - 380)))
                  default_gamma = Inr r" ..
    have "0 \<le> 1.0 * (0.3 + 0.7 * (w - 380) / (440 - 380))"
      using a by simp
    from p [OF this] obtain b
      where b: "py_pow (1.0 * (0.3 + 0.7 * (w - 380) / (440 - 380))) default_gamma = Inr b" ..
    show ?thesis
      unfolding wavelength_bands_def Let_def
      using a by (simp only: if_True r b bind_err_Inr) simp
  next
    case b
    have "0 \<le> (w - 440) / (490 - 440)" using b by simp
    from p [OF this] obtain y
      where y: "py_pow ((w - 440) / (490 - 440)) default_gamma = Inr y" ..
    show ?thesis
      unfolding wavelength_bands_def Let_def
      using b by (simp only: if_True if_False y bind_err_Inr) simp
  next
    case c
    have "0 \<le> - (w - 510) / (510 - 490)" using c by simp
    from p [OF this] obtain y
      where y: "py_pow (- (w - 510) / (510 - 490)) default_gamma = Inr y" ..
    show ?thesis
      unfolding wavelength_bands_def Let_def
      using c by (simp only: if_True if_False y bind_err_Inr) simp
  next
    case d
    have "0 \<le> (w - 510) / (580 - 510)" using d by simp
    from p [OF this] obtain y
      where y: "py_pow ((w - 510) / (580 - 510)) default_gamma = Inr y" ..
    show ?thesis
      unfolding wavelength_bands_def Let_def
      using d by (simp only: if_True if_False y bind_err_Inr) simp
  next
    case e
    have "0 \<le> - (w - 645) / (645 - 580)" using e by simp
    from p [OF this] obtain y
      where y: "py_pow (- (w - 645) / (645 - 580)) default_gamma = Inr y" ..
    show ?thesis
      unfolding wavelength_bands_def Let_def
      using e by (simp only: if_True if_False y bind_err_Inr) simp
  next
    case f
    have "0 \<le> 1.0 * (0.3 + 0.7 * (750 - w) / (750 - 645))" using f by simp
    from p [OF this] obtain y
      where y: "py_pow (1.0 * (0.3 + 0.7 * (750 - w) / (750 - 645))) default_gamma = Inr y" ..
    show ?thesis
      unfolding wavelength_bands_def Let_def
      using f by (simp only: if_True if_False y bind_err_Inr) simp
  next
    case g
    then show ?thesis
      unfolding wavelength_bands_def by (simp only: if_False) simp
  qed
qed

lemma wavelength_to_rgb_total: "\<exists>c. wavelength_to_rgb w default_gamma = Inr c"
proof -
  obtain c where "wavelength_bands w default_gamma = Inr c"
    using wavelength_bands_total by blast
  then show ?thesis
    by (cases c) (simp add: wavelength_to_rgb_def bind_err_def)
qed

section \<open>Flat arrays\<close>

lemma replicate3: "replicate 3 x = [x, x, x]"
  by (simp add: numeral_3_eq_3)

lemma fold_min_flat: "\<forall>x\<in>set r. x = c \<Longrightarrow> fold min r c = (c::'a::linorder)"
  by (induction r) simp_all

lemma fold_max_flat: "\<forall>x\<in>set r. x = c \<Longrightarrow> fold max r c = (c::'a::linorder)"
  by (induction r) simp_all

lemma amin_flat: "xs \<noteq> [] \<Longrightarrow> \<forall>x\<in>set xs. x = c \<Longrightarrow> amin xs = Inr c"
  by (cases xs) (simp_all add: amin_def fold_min_flat)

lemma amax_flat: "xs \<noteq> [] \<Longrightarrow> \<forall>x\<in>set xs. x = c \<Longrightarrow> amax xs = Inr c"
  by (cases xs) (simp_all add: amax_def fold_max_flat)

lemma map_const_flat: "\<forall>x\<in>set xs. f x = c \<Longrightarrow> map f xs = replicate (length xs) c"
  by (induction xs) simp_all

text \<open>On a flat array \<^verbatim>\<open>_normalize\<close> divides by 1: the result is uniformly 0.\<close>

lemma normalize_arr_flat:
  assumes "data arr \<noteq> []" "\<forall>x\<in>set (data arr). x = c"
  shows "normalize_arr arr = Inr (arr\<lparr>dtype := Float64, data := replicate (length (data arr)) 0\<rparr>)"
proof -
  have "map (\<lambda>x. (x - c) / 1) (data arr) = replicate (length (data arr)) 0"
    using assms(2) by (intro map_const_flat) simp
  then show ?thesis
    by (simp add: normalize_arr_def amax_flat [OF assms] amin_flat [OF assms] bind_err_def)
qed

text \<open>The autoscale step of \<^verbatim>\<open>export\<close> divides 0 by 0 in every element.\<close>

lemma autoscale_frame_flat:
  assumes "data img \<noteq> []" "\<forall>x\<in>set (data img). x = c"
  shows "autoscale_frame img =
     Inr \<lparr>shape = shape img, dtype = UInt8, data = replicate (length (data img)) None\<rparr>"
proof -
  have "map (\<lambda>x. astype_uint8 (times255 (true_divide (x - c) (c - c)))) (data img)
      = replicate (length (data img)) None"
    using assms(2) by (intro map_const_flat) (simp add: true_divide_def)
  then show ?thesis
    by (simp add: autoscale_frame_def amax_flat [OF assms] amin_flat [OF assms] bind_err_def)
qed

lemma blocks_one: "blocks (Suc 0) xs = map (\<lambda>x. [x]) xs"
  by (rule nth_equalityI) (simp_all add: blocks_def take_Suc hd_drop_conv_nth)

lemma repeat_last_axis:
  assumes "shape a = shp @ [1]"
  shows "np_repeat a 3 (length shp) =
     Inr (a\<lparr>shape := shp @ [3], data := concat (map (\<lambda>x. [x, x, x]) (data a))\<rparr>)"
  using assms by (simp add: np_repeat_def blocks_one comp_def replicate3)

lemma triple_zeros: "concat (replicate n [0, 0, 0::real]) = replicate (3 * n) 0"
  by (induction n) (simp_all add: replicate_add numeral_3_eq_3)

lemma tint_zeros:
  "map (\<lambda>(p, x). trunc_uint8 (x * real (rgb_component rgb (p mod 3))))
     (enumerate k (replicate n 0)) = replicate n 0"
proof -
  have "\<forall>q\<in>set (enumerate k (replicate n (0::real))).
          (\<lambda>(p, x). trunc_uint8 (x * real (rgb_component rgb (p mod 3)))) q = 0"
    by (auto simp: enumerate_eq_zip trunc_uint8_def dest: set_zip_rightD)
  from map_const_flat [OF this] show ?thesis by simp
qed

lemma monochannel_to_rgb_flat:
  assumes "data arr \<noteq> []" "\<forall>x\<in>set (data arr). x = c"
  shows "monochannel_to_rgb arr rgb =
     Inr \<lparr>shape = shape arr @ [3], dtype = UInt8, data = replicate (3 * length (data arr)) 0\<rparr>"
proof -
  define nrm where "nrm = arr\<lparr>dtype := Float64, data := replicate (length (data arr)) 0\<rparr>"
  define ex where "ex = nrm\<lparr>shape := shape arr @ [1]\<rparr>"
  define rp where "rp = ex\<lparr>shape := shape arr @ [3], data := replicate (3 * length (data arr)) 0\<rparr>"
  have n: "normalize_arr arr = Inr nrm"
    unfolding nrm_def by (rule normalize_arr_flat [OF assms])
  have e: "expand_dims nrm (length (shape nrm)) = Inr ex"
    by (simp add: expand_dims_def ex_def nrm_def)
  have "shape ex = shape arr @ [1]" by (simp add: ex_def)
  from repeat_last_axis [OF this]
  have r: "np_repeat ex 3 (length (shape nrm)) = Inr rp"
    by (simp add: rp_def nrm_def ex_def triple_zeros)
  have d: "data rp = replicate (3 * length (data arr)) 0" "shape rp = shape arr @ [3]"
    by (simp_all add: rp_def)
  show ?thesis
    by (simp add: monochannel_to_rgb_def n e r bind_err_def d tint_zeros)
qed


lemma subarray_length:
  assumes "wf_array img" "shape img = n # sh" "i < n"
  shows "length (data (subarray img i)) = prod_list sh"
proof -
  have "i * prod_list sh + prod_list sh \<le> n * prod_list sh"
    using assms(3) by (metis Suc_leI mult_Suc mult_le_mono1 add.commute)
  then show ?thesis
    using assms(1,2) by (simp add: subarray_def wf_array_def Let_def)
qed

lemma iadd_zeros:
  "iadd_uint16 \<lparr>shape = shp, dtype = UInt16, data = replicate n 0\<rparr>
     \<lparr>shape = shp', dtype = d, data = replicate n 0\<rparr>
   = \<lparr>shape = shp, dtype = UInt16, data = replicate n 0\<rparr>"
proof -
  have "\<forall>q\<in>set (zip (replicate n (0::nat)) (replicate n (0::nat))).
          (\<lambda>(a, b). (a + b) mod 65536) q = 0"
    by (auto dest: set_zip_leftD set_zip_rightD)
  from map_const_flat [OF this] show ?thesis
    by (simp add: iadd_uint16_def)
qed

lemma accumulate_flat:
  assumes "\<forall>i\<in>set idxs. i < length rgbs \<and> 3 * length (data (subarray img i)) = n
             \<and> data (subarray img i) \<noteq> []
             \<and> (\<exists>c. \<forall>x\<in>set (data (subarray img i)). x = c)"
  shows "accumulate img rgbs idxs \<lparr>shape = shp, dtype = UInt16, data = replicate n 0\<rparr>
       = Inr \<lparr>shape = shp, dtype = UInt16, data = replicate n 0\<rparr>"
  using assms
proof (induction idxs)
  case Nil
  show ?case by simp
next
  case (Cons i idxs)
  from Cons.prems have i: "i < length rgbs" "3 * length (data (subarray img i)) = n"
      "data (subarray img i) \<noteq> []"
    and "\<exists>c. \<forall>x\<in>set (data (subarray img i)). x = c"
    by simp_all
  then obtain c where c: "\<forall>x\<in>set (data (subarray img i)). x = c" by blast
  have m: "monochannel_to_rgb (subarray img i) (rgbs ! i) =
      Inr \<lparr>shape = shape (subarray img i) @ [3], dtype = UInt8, data = replicate n 0\<rparr>"
    using monochannel_to_rgb_flat [OF i(3) c] i(2) by simp
  have "accumulate img rgbs idxs \<lparr>shape = shp, dtype = UInt16, data = replicate n 0\<rparr>
       = Inr \<lparr>shape = shp, dtype = UInt16, data = replicate n 0\<rparr>"
    using Cons.prems by (intro Cons.IH) simp
  then show ?case
    using i(1) by (simp add: py_index_def bind_err_def m iadd_zeros)
qed

lemma amax_zeros: "0 < n \<Longrightarrow> amax (replicate n (0::nat)) = Inr 0"
  by (rule amax_flat) auto

section \<open>Index arithmetic of arrays\<close>

lemma length_all_indices: "length (all_indices sh) = prod_list sh"
proof (induction sh)
  case Nil
  show ?case by simp
next
  case (Cons n ns)
  have "map (\<lambda>i. length (map ((#) i) (all_indices ns))) [0..<n] = replicate n (prod_list ns)"
    using Cons.IH by (simp add: map_replicate_const)
  then show ?case
    by (simp add: length_concat comp_def sum_list_replicate)
qed

lemma all_indices_valid: "idx \<in> set (all_indices sh) \<Longrightarrow> valid_index sh idx"
  unfolding valid_index_def
  by (induction sh arbitrary: idx) auto

lemma flat_index_bound: "valid_index sh idx \<Longrightarrow> flat_index sh idx < prod_list sh"
  unfolding valid_index_def
proof (induction sh arbitrary: idx)
  case Nil
  then show ?case by simp
next
  case (Cons n ns)
  then obtain i rest where idx: "idx = i # rest" "i < n" "list_all2 (<) rest ns"
    by (auto simp: list_all2_Cons2)
  have "flat_index ns rest < prod_list ns" using Cons.IH idx(3) .
  then have "i * prod_list ns + flat_index ns rest < i * prod_list ns + prod_list ns"
    by simp
  also have "\<dots> \<le> n * prod_list ns"
    using idx(2) by (metis Suc_leI mult_Suc mult_le_mono1 add.commute)
  finally show ?case by (simp add: idx(1))
qed

lemma concat_nth_uniform:
  assumes "\<forall>xs\<in>set xss. length xs = p" "i < length xss" "k < p"
  shows "concat xss ! (i * p + k) = xss ! i ! k"
  using assms
proof (induction xss arbitrary: i)
  case Nil
  then show ?case by simp
next
  case (Cons xs xss)
  show ?case
  proof (cases i)
    case 0
    with Cons.prems show ?thesis by (simp add: nth_append)
  next
    case (Suc i')
    with Cons.prems have "concat xss ! (i' * p + k) = xss ! i' ! k"
      by (intro Cons.IH) simp_all
    with Cons.prems Suc show ?thesis by (simp add: nth_append)
  qed
qed

lemma all_indices_nth_flat:
  "valid_index sh idx \<Longrightarrow> all_indices sh ! flat_index sh idx = idx"
  unfolding valid_index_def
proof (induction sh arbitrary: idx)
  case Nil
  then show ?case by simp
next
  case (Cons n ns)
  then obtain i rest where idx: "idx = i # rest" "i < n" "list_all2 (<) rest ns"
    by (auto simp: list_all2_Cons2)
  have b: "flat_index ns rest < prod_list ns"
    using flat_index_bound [of ns rest] idx(3) by (simp add: valid_index_def)
  have "concat (map (\<lambda>i. map ((#) i) (all_indices ns)) [0..<n]) ! (i * prod_list ns + flat_index ns rest)
      = map (\<lambda>i. map ((#) i) (all_indices ns)) [0..<n] ! i ! flat_index ns rest"
    using idx(2) b by (intro concat_nth_uniform) (auto simp: length_all_indices)
  also have "\<dots> = i # all_indices ns ! flat_index ns rest"
    using idx(2) b by (simp add: length_all_indices)
  also have "\<dots> = i # rest"
    using Cons.IH [OF idx(3)] by simp
  finally show ?case by (simp add: idx(1))
qed

lemma map_shift_upt: "map (\<lambda>k. c + k) [0..<p] = [c..<c + p]"
  by (induction p) simp_all

lemma concat_upt_blocks: "concat (map (\<lambda>i. map (\<lambda>k. i * p + k) [0..<p]) [0..<n]) = [0..<n * p]"
proof (induction n)
  case 0
  show ?case by simp
next
  case (Suc n)
  have m: "map (\<lambda>k. n * p + k) [0..<p] = [n * p..<n * p + p]"
    by (rule map_shift_upt)
  have "concat (map (\<lambda>i. map (\<lambda>k. i * p + k) [0..<p]) [0..<Suc n])
      = [0..<n * p] @ [n * p..<n * p + p]"
    by (simp add: Suc.IH m)
  also have "\<dots> = [0..<n * p + p]"
    by (rule upt_add_eq_append [symmetric]) simp
  finally show ?case by (simp add: add.commute)
qed

lemma flat_all_indices: "map (flat_index sh) (all_indices sh) = [0..<prod_list sh]"
proof (induction sh)
  case Nil
  show ?case by simp
next
  case (Cons n ns)
  have row: "map (flat_index (n # ns)) (map ((#) i) (all_indices ns))
      = map (\<lambda>k. i * prod_list ns + k) [0..<prod_list ns]" for i
  proof -
    have "map (flat_index (n # ns)) (map ((#) i) (all_indices ns))
        = map (\<lambda>k. i * prod_list ns + k) (map (flat_index ns) (all_indices ns))"
      by (simp only: map_map comp_def flat_index.simps)
    then show ?thesis by (simp only: Cons.IH)
  qed
  have "map (flat_index (n # ns)) (all_indices (n # ns))
      = concat (map (\<lambda>i. map (flat_index (n # ns)) (map ((#) i) (all_indices ns))) [0..<n])"
    by (simp only: all_indices.simps map_concat map_map comp_def)
  also have "\<dots> = concat (map (\<lambda>i. map (\<lambda>k. i * prod_list ns + k) [0..<prod_list ns]) [0..<n])"
    by (simp only: row)
  also have "\<dots> = [0..<n * prod_list ns]"
    by (rule concat_upt_blocks)
  finally show ?case by simp
qed

lemma tabulate_items:
  assumes "wf_array a"
  shows "map (\<lambda>j. data a ! flat_index (shape a) j) (all_indices (shape a)) = data a"
proof -
  have "map (\<lambda>j. data a ! flat_index (shape a) j) (all_indices (shape a))
      = map ((!) (data a)) (map (flat_index (shape a)) (all_indices (shape a)))"
    by (simp add: comp_def)
  also have "\<dots> = map ((!) (data a)) [0..<length (data a)]"
    using assms by (simp add: flat_all_indices wf_array_def)
  finally show ?thesis by (simp add: map_nth)
qed

lemma transpose_axes_item:
  assumes "valid_index (map (\<lambda>k. shape a ! k) axes) j"
  shows "item (transpose_axes a axes) j = data a ! flat_index (shape a) (source_index axes j)"
proof -
  let ?sh = "map (\<lambda>k. shape a ! k) axes"
  have "flat_index ?sh j < length (all_indices ?sh)"
    using flat_index_bound [OF assms] by (simp add: length_all_indices)
  then show ?thesis
    by (simp add: item_def transpose_axes_def all_indices_nth_flat [OF assms])
qed

lemma transpose_axes_wf: "wf_array (transpose_axes a axes)"
  by (simp add: wf_array_def transpose_axes_def length_all_indices)


text \<open>
  Transposing by \<open>axes\<close> and then by \<open>axes'\<close> gives the array back when \<open>axes'\<close>
  undoes \<open>axes\<close> on the indices of the array.
\<close>

lemma transpose_axes_back:
  assumes wf: "wf_array a"
    and sh: "map (\<lambda>k. map (\<lambda>k. shape a ! k) axes ! k) axes' = shape a"
    and v: "\<And>j. valid_index (shape a) j
              \<Longrightarrow> valid_index (map (\<lambda>k. shape a ! k) axes) (source_index axes' j)"
    and s: "\<And>j. valid_index (shape a) j \<Longrightarrow> source_index axes (source_index axes' j) = j"
  shows "transpose_axes (transpose_axes a axes) axes' = a"
proof -
  define b where "b = transpose_axes a axes"
  have shb: "shape b = map (\<lambda>k. shape a ! k) axes"
    by (simp add: b_def transpose_axes_def)
  have sh': "map (\<lambda>k. shape b ! k) axes' = shape a"
    using sh by (simp add: shb)
  have "map (\<lambda>j. data b ! flat_index (shape b) (source_index axes' j)) (all_indices (shape a))
      = map (\<lambda>j. data a ! flat_index (shape a) j) (all_indices (shape a))"
  proof (rule map_cong [OF refl])
    fix j assume "j \<in> set (all_indices (shape a))"
    then have j: "valid_index (shape a) j" by (rule all_indices_valid)
    have "data b ! flat_index (shape b) (source_index axes' j) = item b (source_index axes' j)"
      by (simp add: item_def)
    also have "\<dots> = data a ! flat_index (shape a) (source_index axes (source_index axes' j))"
      unfolding b_def by (rule transpose_axes_item [OF v [OF j]])
    finally show "data b ! flat_index (shape b) (source_index axes' j)
        = data a ! flat_index (shape a) j"
      by (simp add: s [OF j])
  qed
  then have d: "map (\<lambda>j. data b ! flat_index (shape b) (source_index axes' j))
       (all_indices (shape a)) = data a"
    by (simp add: tabulate_items [OF wf])
  have "transpose_axes b axes' = b\<lparr>shape := shape a, data := data a\<rparr>"
    by (simp add: transpose_axes_def [of b] sh' d)
  also have "\<dots> = a"
    by (simp add: b_def transpose_axes_def)
  finally show ?thesis by (simp add: b_def)
qed

lemma valid_index3:
  "valid_index [a, b, d] j \<longleftrightarrow> (\<exists>i0 i1 i2. j = [i0, i1, i2] \<and> i0 < a \<and> i1 < b \<and> i2 < d)"
  by (auto simp: valid_index_def list_all2_Cons2)

lemma source_index_120: "source_index [Suc 0, 2, 0] [i1, i2, i0] = [i0, i1, i2]"
  by (simp add: source_index_def upt_rec)

lemma source_index_201: "source_index [2, 0, Suc 0] [i0, i1, i2] = [i1, i2, i0]"
  by (simp add: source_index_def upt_rec)

lemma source_index_021: "source_index [0, 2, Suc 0] [i0, i1, i2] = [i0, i2, i1]"
  by (simp add: source_index_def upt_rec)


lemma upt3: "[0..<3] = [0, 1, 2]"
  by (simp add: upt_rec)

lemma rollaxis_rank3:
  assumes "length (shape x) = 3"
  shows "rollaxis x 0 3 = Inr (transpose_axes x [1, 2, 0])"
    and "rollaxis x 1 3 = Inr (transpose_axes x [0, 2, 1])"
    and "rollaxis x 2 3 = Inr x"
    and "rollaxis x 2 0 = Inr (transpose_axes x [2, 0, 1])"
    and "rollaxis x 2 1 = Inr (transpose_axes x [0, 2, 1])"
    and "rollaxis x 2 2 = Inr x"
  using assms by (simp_all add: rollaxis_def upt3 numeral_2_eq_2)

lemma transpose_axes_rank: "length (shape (transpose_axes x axes)) = length axes"
  by (simp add: transpose_axes_def)

subsection \<open>The shape step on frames of rank 3\<close>

lemma color_first:
  assumes wf: "wf_array img" and sh: "shape img = [3, b, d]" and ne: "b \<noteq> 3" "d \<noteq> 3"
  shows "canonical_shape 3 img = Inr (transpose_axes img [1, 2, 0])"
    and "shape (transpose_axes img [1, 2, 0]) = [b, d, 3]"
    and "\<And>i0 i1 i2. i0 < 3 \<Longrightarrow> i1 < b \<Longrightarrow> i2 < d \<Longrightarrow>
           item (transpose_axes img [1, 2, 0]) [i1, i2, i0] = item img [i0, i1, i2]"
    and "rollaxis (transpose_axes img [1, 2, 0]) 2 0 = Inr img"
proof -
  show "canonical_shape 3 img = Inr (transpose_axes img [1, 2, 0])"
    using ne by (simp add: canonical_shape_def rollaxis_def sh upt3 numeral_2_eq_2)
  show s: "shape (transpose_axes img [1, 2, 0]) = [b, d, 3]"
    by (simp add: transpose_axes_def sh)
  show "item (transpose_axes img [1, 2, 0]) [i1, i2, i0] = item img [i0, i1, i2]"
    if "i0 < 3" "i1 < b" "i2 < d" for i0 i1 i2
  proof -
    have "valid_index (map (\<lambda>k. shape img ! k) [1, 2, 0]) [i1, i2, i0]"
      using that by (simp add: sh valid_index_def)
    from transpose_axes_item [OF this] show ?thesis
      unfolding One_nat_def source_index_120 item_def [of img] .
  qed
  have "transpose_axes (transpose_axes img [1, 2, 0]) [2, 0, 1] = img"
  proof (rule transpose_axes_back [OF wf])
    show "map (\<lambda>k. map (\<lambda>k. shape img ! k) [1, 2, 0] ! k) [2, 0, 1] = shape img"
      by (simp add: sh)
    show "valid_index (map (\<lambda>k. shape img ! k) [1, 2, 0]) (source_index [2, 0, 1] j)"
      if "valid_index (shape img) j" for j
      using that by (auto simp: sh valid_index3 source_index_201)
    show "source_index [1, 2, 0] (source_index [2, 0, 1] j) = j"
      if "valid_index (shape img) j" for j
      using that by (auto simp: sh valid_index3 source_index_201 source_index_120)
  qed
  moreover have "length (shape (transpose_axes img [1, 2, 0])) = 3"
    by (simp only: transpose_axes_rank) simp
  ultimately show "rollaxis (transpose_axes img [1, 2, 0]) 2 0 = Inr img"
    by (simp only: rollaxis_rank3)
qed

lemma color_middle:
  assumes wf: "wf_array img" and sh: "shape img = [a, 3, d]" and ne: "a \<noteq> 3" "d \<noteq> 3"
  shows "canonical_shape 3 img = Inr (transpose_axes img [0, 2, 1])"
    and "shape (transpose_axes img [0, 2, 1]) = [a, d, 3]"
    and "\<And>i0 i1 i2. i0 < a \<Longrightarrow> i1 < 3 \<Longrightarrow> i2 < d \<Longrightarrow>
           item (transpose_axes img [0, 2, 1]) [i0, i2, i1] = item img [i0, i1, i2]"
    and "rollaxis (transpose_axes img [0, 2, 1]) 2 1 = Inr img"
proof -
  show "canonical_shape 3 img = Inr (transpose_axes img [0, 2, 1])"
    using ne by (simp add: canonical_shape_def rollaxis_def sh upt3 numeral_2_eq_2)
  show s: "shape (transpose_axes img [0, 2, 1]) = [a, d, 3]"
    by (simp add: transpose_axes_def sh)
  show "item (transpose_axes img [0, 2, 1]) [i0, i2, i1] = item img [i0, i1, i2]"
    if "i0 < a" "i1 < 3" "i2 < d" for i0 i1 i2
  proof -
    have "valid_index (map (\<lambda>k. shape img ! k) [0, 2, 1]) [i0, i2, i1]"
      using that by (simp add: sh valid_index_def)
    from transpose_axes_item [OF this] show ?thesis
      unfolding One_nat_def source_index_021 item_def [of img] .
  qed
  have "transpose_axes (transpose_axes img [0, 2, 1]) [0, 2, 1] = img"
  proof (rule transpose_axes_back [OF wf])
    show "map (\<lambda>k. map (\<lambda>k. shape img ! k) [0, 2, 1] ! k) [0, 2, 1] = shape img"
      by (simp add: sh)
    show "valid_index (map (\<lambda>k. shape img ! k) [0, 2, 1]) (source_index [0, 2, 1] j)"
      if "valid_index (shape img) j" for j
      using that by (auto simp: sh valid_index3 source_index_021)
    show "source_index [0, 2, 1] (source_index [0, 2, 1] j) = j"
      if "valid_index (shape img) j" for j
      using that by (auto simp: sh valid_index3 source_index_021)
  qed
  moreover have "length (shape (transpose_axes img [0, 2, 1])) = 3"
    by (simp only: transpose_axes_rank) simp
  ultimately show "rollaxis (transpose_axes img [0, 2, 1]) 2 1 = Inr img"
    by (simp only: rollaxis_rank3)
qed

lemma color_last:
  assumes sh: "shape img = [a, b, 3]" and ne: "a \<noteq> 3" "b \<noteq> 3"
  shows "canonical_shape 3 img = Inr img" and "rollaxis img 2 2 = Inr img"
  using ne by (simp_all add: canonical_shape_def rollaxis_def sh)

text \<open>The shape step on the sample frame of shape (3, 2, 2), evaluated.\<close>

lemma canonical_shape_chw_frame:
  "canonical_shape 3 chw_frame =
     Inr \<lparr>shape = [2, 2, 3], dtype = UInt8,
          data = [0, 10, 20, 1, 11, 21, 2, 12, 22, 3, 13, 23]\<rparr>"
  by code_simp

text \<open>
  Claim C7: for a frame of rank 3 with exactly one axis of length 3, the shape step
  succeeds and moves the colour axis \<open>c\<close> to the end. The two other axes keep their
  order: the shape is the old one without position \<open>c\<close>, followed by 3, and the
  element at an index of the frame is found at that index with position \<open>c\<close> moved
  to the end. Rolling the last axis back to position \<open>c\<close> gives the frame again.
\<close>

theorem canonical_shape_color_last:
  assumes "wf_array img" "length (shape img) = 3" "count_list (shape img) 3 = 1"
  shows "\<exists>out. canonical_shape 3 img = Inr out
     \<and> (let c = index_of 3 (shape img) in
          shape out = take c (shape img) @ drop (Suc c) (shape img) @ [3]
          \<and> (\<forall>idx. valid_index (shape img) idx \<longrightarrow>
                item out (take c idx @ drop (Suc c) idx @ [idx ! c]) = item img idx)
          \<and> rollaxis out 2 c = Inr img)"
proof -
  obtain a b d where sh: "shape img = [a, b, d]"
    using assms(2) by (auto simp: length_Suc_conv numeral_3_eq_3)
  consider (first) "a = 3" "b \<noteq> 3" "d \<noteq> 3" | (middle) "a \<noteq> 3" "b = 3" "d \<noteq> 3"
    | (last) "a \<noteq> 3" "b \<noteq> 3" "d = 3"
    using assms(3) by (auto simp: sh split: if_splits)
  then show ?thesis
  proof cases
    case first
    define out where "out = transpose_axes img [1, 2, 0]"
    note f = color_first [OF assms(1) sh [unfolded first(1)] first(2,3), folded out_def]
    have c: "index_of 3 (shape img) = 0"
      by (simp add: sh first)
    have "item out (take 0 idx @ drop (Suc 0) idx @ [idx ! 0]) = item img idx"
      if "valid_index (shape img) idx" for idx
      using that f(3) by (auto simp: sh first valid_index3)
    then show ?thesis
      unfolding c Let_def using f(1,2,4) by (auto simp: sh first)
  next
    case middle
    define out where "out = transpose_axes img [0, 2, 1]"
    note m = color_middle [OF assms(1) sh [unfolded middle(2)] middle(1,3), folded out_def]
    have c: "index_of 3 (shape img) = 1"
      by (simp add: sh middle)
    have "item out (take 1 idx @ drop (Suc 1) idx @ [idx ! 1]) = item img idx"
      if "valid_index (shape img) idx" for idx
      using that m(3) by (auto simp: sh middle valid_index3)
    then show ?thesis
      unfolding c Let_def using m(1,2,4) by (auto simp: sh middle)
  next
    case last
    note l = color_last [OF sh [unfolded last(3)] last(1,2)]
    have c: "index_of 3 (shape img) = 2"
      by (simp add: sh last)
    have "item img (take 2 idx @ drop (Suc 2) idx @ [idx ! 2]) = item img idx"
      if "valid_index (shape img) idx" for idx
      using that by (auto simp: sh last valid_index3)
    then show ?thesis
      unfolding c Let_def using l by (auto simp: sh last)
  qed
qed


theorem canonical_shape_color_last_witness:
  "wf_array chw_frame \<and> length (shape chw_frame) = 3 \<and> count_list (shape chw_frame) 3 = 1
   \<and> (\<exists>out. canonical_shape 3 chw_frame = Inr out \<and> shape out = [2, 2, 3]
          \<and> item out [1, 0, 2] = 22 \<and> rollaxis out 2 0 = Inr chw_frame)"
proof -
  have a: "wf_array chw_frame"
    by (simp add: wf_array_def chw_frame_def)
  have b: "length (shape chw_frame) = 3"
    by (simp add: chw_frame_def)
  have c: "count_list (shape chw_frame) 3 = 1"
    by (simp add: chw_frame_def)
  have i: "index_of 3 (shape chw_frame) = 0"
    by (simp add: chw_frame_def)
  have v: "valid_index (shape chw_frame) [2, 1, 0]"
    by (simp add: valid_index_def chw_frame_def)
  have e: "item chw_frame [2, 1, 0] = 22"
    by (simp add: item_def chw_frame_def)
  from canonical_shape_color_last [OF a b c] obtain out
    where o: "canonical_shape 3 chw_frame = Inr out"
      "shape out = take 0 (shape chw_frame) @ drop (Suc 0) (shape chw_frame) @ [3]"
      "\<forall>idx. valid_index (shape chw_frame) idx \<longrightarrow>
         item out (take 0 idx @ drop (Suc 0) idx @ [idx ! 0]) = item chw_frame idx"
      "rollaxis out 2 0 = Inr chw_frame"
    unfolding i Let_def by blast
  from o(3) v e have "item out [1, 0, 2] = 22" by fastforce
  moreover from o(2) have "shape out = [2, 2, 3]" by (simp add: chw_frame_def)
  ultimately show ?thesis using a b c o(1,4) by blast
qed

section \<open>Properties of export\<close>

subsection \<open>What the loop leaves alone\<close>

lemma encode_frame_keeps:
  "encode_frame au nd img enc = (r, enc1) \<Longrightarrow>
     bit_rate enc1 = bit_rate enc \<and> stream_width enc1 = stream_width enc
     \<and> stream_height enc1 = stream_height enc \<and> is_closed enc1 = is_closed enc"
  by (auto simp: encode_frame_def split: sum.splits if_splits)

lemma export_loop_keeps:
  "export_loop au nd fs enc = (r, enc1) \<Longrightarrow>
     bit_rate enc1 = bit_rate enc \<and> stream_width enc1 = stream_width enc
     \<and> stream_height enc1 = stream_height enc \<and> is_closed enc1 = is_closed enc"
proof (induction fs arbitrary: enc)
  case Nil
  then show ?case by simp
next
  case (Cons f fs)
  obtain r0 enc0 where s: "encode_frame au nd f enc = (r0, enc0)"
    by (cases "encode_frame au nd f enc")
  note k = encode_frame_keeps [OF s]
  show ?case
  proof (cases r0)
    case None
    with Cons.prems s have "export_loop au nd fs enc0 = (r, enc1)" by simp
    from Cons.IH [OF this] k show ?thesis by simp
  next
    case (Some e)
    with Cons.prems s have "enc1 = enc0" by simp
    with k show ?thesis by simp
  qed
qed

lemma setup_bitrate_keeps:
  "setup_bitrate args shp enc = (r, enc1) \<Longrightarrow>
     stream_width enc1 = stream_width enc \<and> stream_height enc1 = stream_height enc
     \<and> is_closed enc1 = is_closed enc"
  by (auto simp: setup_bitrate_def split: option.splits sum.splits)

lemma setup_geometry_keeps:
  "setup_geometry args shp enc = (r, enc1) \<Longrightarrow>
     bit_rate enc1 = bit_rate enc \<and> is_closed enc1 = is_closed enc"
  by (auto simp: setup_geometry_def Let_def split: option.splits sum.splits if_splits)

lemma setup_stream_open:
  "setup_stream args shp enc = (r, enc1) \<Longrightarrow> is_closed enc1 = is_closed enc"
  by (auto simp: setup_stream_def split: prod.splits option.splits
           dest: setup_bitrate_keeps setup_geometry_keeps)

text \<open>The stream attributes after \<^verbatim>\<open>export\<close> are those of the set-up on the first frame.\<close>

lemma export_config:
  assumes s: "setup_stream args (shape img) opened = (r0, enc0)"
  shows "bit_rate (snd (export (img # fs) args)) = bit_rate enc0
       \<and> stream_width (snd (export (img # fs) args)) = stream_width enc0
       \<and> stream_height (snd (export (img # fs) args)) = stream_height enc0"
proof (cases r0)
  case (Some e)
  with s show ?thesis by (simp add: export_def)
next
  case None
  obtain r1 enc1
    where l: "export_loop (autoscale args) (length (shape img)) (img # fs) enc0 = (r1, enc1)"
    by (cases "export_loop (autoscale args) (length (shape img)) (img # fs) enc0")
  from export_loop_keeps [OF l] s None l show ?thesis
    by (cases r1) (simp_all add: export_def)
qed

lemma setup_stream_derived:
  assumes "bitrate args = None" "width args = None"
  shows "setup_stream args (s0 # s1 # rest) opened =
     (None, opened\<lparr>bit_rate := Some (int s0 * int s1 * 8 * 3 * rate args),
                    stream_height := Some (int s0), stream_width := Some (int s1)\<rparr>)"
  using assms
  by (simp add: setup_stream_def setup_bitrate_def setup_geometry_def estimate_bitrate_def
      py_index_def bind_err_def)

lemma setup_stream_width_only:
  assumes "width args = Some w" "height args = None" "wd \<noteq> 0"
  shows "\<exists>enc0. setup_stream args (h # wd # rest) opened = (None, enc0)
      \<and> stream_width enc0 = Some w
      \<and> stream_height enc0 = Some (w * int h div int wd)"
  using assms
  by (simp add: setup_stream_def setup_bitrate_def setup_geometry_def estimate_bitrate_def
      py_index_def bind_err_def split: option.splits)

subsection \<open>Evaluation on the sample frames\<close>

lemmas export_eval = export_def default_args_def setup_stream_def setup_bitrate_def
  setup_geometry_def estimate_bitrate_def py_index_def bind_err_def encode_frame_def
  canonical_shape_def opened_def expand_dims_def np_repeat_def blocks_def
  autoscale_frame_def amin_def amax_def true_divide_def trunc_uint8_def py_is_def

lemma export_gray_frame:
  "export [gray_frame] default_args =
     (None, \<lparr>bit_rate = Some 4320, stream_width = Some 3, stream_height = Some 2,
        muxed = [\<lparr>shape = [2, 3, 3], dtype = UInt8,
                  data = map Some [0, 0, 0, 51, 51, 51, 102, 102, 102,
                                   153, 153, 153, 204, 204, 204, 255, 255, 255]\<rparr>],
        is_closed = True\<rparr>)"
  by (simp add: export_eval gray_frame_def upt_rec replicate3)

lemma export_gray_frame_width4:
  "stream_height (snd (export [gray_frame] (default_args\<lparr>width := Some 4\<rparr>))) = Some 2"
  by (simp add: export_eval gray_frame_def upt_rec replicate3)

lemma export_rank4_frame:
  "export [rank4_frame] default_args =
     (Some ShapeError, \<lparr>bit_rate = Some 720, stream_width = Some 1, stream_height = Some 1,
        muxed = [], is_closed = False\<rparr>)"
  by (simp add: export_eval rank4_frame_def)

subsection \<open>Claims about export\<close>

text \<open>
  Claim C2 (the claim is right, the code is not): for a flat array, brightness
  normalization must not divide by zero, in \<^verbatim>\<open>_normalize\<close> and in the autoscale step
  of \<^verbatim>\<open>export\<close>. \<^verbatim>\<open>_normalize\<close> replaces a zero range by 1. The autoscale step of
  \<^verbatim>\<open>export\<close> does not: on the flat 2 x 2 frame of fives it divides 0 by 0 in every
  element, and the frame handed to the encoder holds no defined byte.
\<close>

theorem export_flat_frame_undefined:
  "export [flat_frame] default_args =
     (None, \<lparr>bit_rate = Some 2880, stream_width = Some 2, stream_height = Some 2,
        muxed = [\<lparr>shape = [2, 2, 3], dtype = UInt8, data = replicate 12 None\<rparr>],
        is_closed = True\<rparr>)"
  by (simp add: export_eval flat_frame_def upt_rec numeral_eq_Suc)

text \<open>
  Claim C3, as stated: when \<^verbatim>\<open>export\<close> aborts with a ShapeError or TypeMismatch, the
  encoder is still closed before the error reaches the caller. It fails: a frame of rank
  4 raises the ShapeError inside the loop, and \<^verbatim>\<open>output.close()\<close>, the statement after
  the loop, is never reached. The source has no \<^verbatim>\<open>try\<close>/\<^verbatim>\<open>finally\<close> around the loop.
\<close>

theorem export_error_not_closed_counterexample:
  "fst (export [rank4_frame] default_args) = Some ShapeError
   \<and> \<not> is_closed (snd (export [rank4_frame] default_args))"
  by (simp add: export_rank4_frame)

text \<open>
  Claim C3, amended: \<^verbatim>\<open>export\<close> closes the encoder exactly when it returns without an
  error. When it aborts with a ShapeError, a TypeMismatch or any other exception, the
  exception propagates at once and the encoder is left open.
\<close>

theorem export_closed_iff_no_error:
  "is_closed (snd (export sequence args)) \<longleftrightarrow> fst (export sequence args) = None"
proof (cases sequence)
  case Nil
  then show ?thesis by (simp add: export_def)
next
  case (Cons f fs)
  obtain r0 enc0 where s: "setup_stream args (shape f) opened = (r0, enc0)"
    by (cases "setup_stream args (shape f) opened")
  have o: "\<not> is_closed enc0"
    using setup_stream_open [OF s] by (simp add: opened_def)
  show ?thesis
  proof (cases r0)
    case (Some e)
    with Cons s o show ?thesis by (simp add: export_def)
  next
    case None
    obtain r1 enc1
      where l: "export_loop (autoscale args) (length (shape f)) (f # fs) enc0 = (r1, enc1)"
      by (cases "export_loop (autoscale args) (length (shape f)) (f # fs) enc0")
    have "\<not> is_closed enc1"
      using export_loop_keeps [OF l] o by simp
    with Cons s None l show ?thesis
      by (cases r1) (simp_all add: export_def)
  qed
qed

theorem export_closed_iff_no_error_witness:
  "fst (export [gray_frame] default_args) = None
   \<and> is_closed (snd (export [gray_frame] default_args))"
  using export_closed_iff_no_error [of "[gray_frame]" default_args]
  by (simp add: export_gray_frame)

text \<open>
  Claim C4 (the claim is right, the code is not): a frame whose dtype is uint8 is
  accepted with autoscaling disabled. The source tests \<^verbatim>\<open>img.dtype is not np.uint8\<close>,
  an identity test between a dtype instance and a scalar type, which is true for every
  array. So with \<^verbatim>\<open>autoscale=False\<close> the uint8 frame below raises the TypeMismatch,
  against the docstring ("If the datatype of the images is not 'uint8', this must be set
  to True") and the message of the exception.
\<close>

theorem export_uint8_no_autoscale_raises:
  "export [gray_frame] (default_args\<lparr>autoscale := False\<rparr>) =
     (Some TypeMismatch, \<lparr>bit_rate = Some 4320, stream_width = Some 3,
        stream_height = Some 2, muxed = [], is_closed = False\<rparr>)"
  by (simp add: export_eval gray_frame_def upt_rec replicate3)

text \<open>
  Claim C5, as stated: with only \<open>width\<close> given, the stream height is
  \<open>round(width * original_height / original_width)\<close>. It fails: the source computes
  \<^verbatim>\<open>width * img.shape[0] // img.shape[1]\<close>, a floor division. For width 4 and a first
  frame of 2 rows and 3 columns the height is 2, and 8/3 rounds to 3.
\<close>

theorem export_height_round_counterexample:
  "stream_height (snd (export [gray_frame] (default_args\<lparr>width := Some 4\<rparr>)))
     \<noteq> Some (round (4 * 2 / 3 :: real))"
  by (simp add: export_gray_frame_width4 round_def)

text \<open>
  Claim C5, amended: with only \<open>width\<close> given (height unset) and a first frame whose
  axis 1 is not empty, the stream height is the floor of
  \<open>width * original_height / original_width\<close>, where the original height and width are
  the lengths of axes 0 and 1 of the first frame.
\<close>

theorem export_height_floor:
  assumes "width args = Some w" "height args = None" "shape img = h # wd # rest" "wd \<noteq> 0"
  shows "stream_height (snd (export (img # fs) args)) = Some (w * int h div int wd)"
proof -
  obtain enc0 where "setup_stream args (shape img) opened = (None, enc0)"
      and "stream_height enc0 = Some (w * int h div int wd)"
    using setup_stream_width_only [OF assms(1,2,4), of h rest] assms(3) by auto
  then show ?thesis using export_config [of args img None enc0 fs] by simp
qed

theorem export_height_floor_witness:
  "stream_height (snd (export [gray_frame] (default_args\<lparr>width := Some 4\<rparr>))) = Some 2"
  using export_height_floor [of "default_args\<lparr>width := Some 4\<rparr>" 4 gray_frame 2 3 "[]" "[]"]
  by (simp add: default_args_def gray_frame_def)

text \<open>
  Claim C10: when neither a bitrate nor a width is given, the set-up reads axes 0 and 1
  of the first frame as it comes, before the colour axis is moved. For a first frame of
  shape (3, H, W) the stream height is 3, the stream width is H, and the bitrate is
  3 * H * 8 * 3 * rate.
\<close>

theorem export_raw_axes:
  assumes "bitrate args = None" "width args = None" "shape img = [3, H, W]"
  shows "stream_height (snd (export (img # fs) args)) = Some 3
       \<and> stream_width (snd (export (img # fs) args)) = Some (int H)
       \<and> bit_rate (snd (export (img # fs) args)) = Some (3 * int H * 8 * 3 * rate args)"
  using export_config
    [OF setup_stream_derived [OF assms(1,2), of 3 H "[W]", folded assms(3)], of fs]
  by simp

theorem export_raw_axes_witness:
  "stream_height (snd (export [chw_frame] default_args)) = Some 3
   \<and> stream_width (snd (export [chw_frame] default_args)) = Some 2
   \<and> bit_rate (snd (export [chw_frame] default_args)) = Some 4320"
  using export_raw_axes [of default_args chw_frame 2 2 "[]"]
  by (simp add: default_args_def chw_frame_def)

section \<open>Properties of to\_rgb\<close>

lemma map_err_total:
  assumes "\<And>x. \<exists>y. f x = Inr y"
  shows "\<exists>ys. map_err f xs = Inr ys \<and> length ys = length xs"
proof (induction xs)
  case Nil
  show ?case by simp
next
  case (Cons x xs)
  obtain y where "f x = Inr y" using assms by blast
  moreover obtain ys where "map_err f xs = Inr ys" "length ys = length xs"
    using Cons.IH by blast
  ultimately show ?case by (simp add: bind_err_def)
qed

lemma identify_rgbs_supplied:
  assumes "supplied wl = Some n" "n < ch"
  shows "\<exists>rgbs. identify_rgbs ch wl = Inr rgbs \<and> length rgbs = n"
proof (cases wl)
  case NoWavelengths
  with assms show ?thesis by simp
next
  case (Scalar w)
  obtain c where "wavelength_to_rgb w default_gamma = Inr c"
    using wavelength_to_rgb_total by blast
  with Scalar assms show ?thesis
    by (auto simp: identify_rgbs_def bind_err_def)
next
  case (Wavelengths ws)
  obtain ys where "map_err (\<lambda>nm. wavelength_to_rgb nm default_gamma) (take ch ws) = Inr ys"
      "length ys = length (take ch ws)"
    using map_err_total [of "\<lambda>nm. wavelength_to_rgb nm default_gamma" "take ch ws"]
      wavelength_to_rgb_total by blast
  with Wavelengths assms show ?thesis
    by (auto simp: identify_rgbs_def)
qed

subsection \<open>Evaluation on the sample image of two channels\<close>

lemma two_channel_first:
  "subarray two_channel 0 = \<lparr>shape = [Suc 0, 2], dtype = Float64, data = [0, 1]\<rparr>"
  by (simp add: subarray_def two_channel_def)

lemma two_channel_second:
  "subarray two_channel (Suc 0) = \<lparr>shape = [Suc 0, 2], dtype = Float64, data = [2, 3]\<rparr>"
  by (simp add: subarray_def two_channel_def)

lemma two_channel_green:
  "monochannel_to_rgb \<lparr>shape = [Suc 0, 2], dtype = Float64, data = [0, 1]\<rparr> (0, 255, 0)
   = Inr \<lparr>shape = [Suc 0, 2, 3], dtype = UInt8, data = [0, 0, 0, 0, 255, 0]\<rparr>"
  by (simp add: monochannel_to_rgb_def normalize_arr_def amax_def amin_def bind_err_def
      expand_dims_def np_repeat_def blocks_one replicate3 enumerate_eq_zip upt_rec trunc_uint8_def)

lemma two_channel_magenta:
  "monochannel_to_rgb \<lparr>shape = [Suc 0, 2], dtype = Float64, data = [2, 3]\<rparr> (255, 0, 255)
   = Inr \<lparr>shape = [Suc 0, 2, 3], dtype = UInt8, data = [0, 0, 0, 255, 0, 255]\<rparr>"
  by (simp add: monochannel_to_rgb_def normalize_arr_def amax_def amin_def bind_err_def
      expand_dims_def np_repeat_def blocks_one replicate3 enumerate_eq_zip upt_rec trunc_uint8_def)

lemma two_channel_shape:
  "is_multichannel two_channel" "channels two_channel = 2" "shape_rgb two_channel = [1, 2, 3]"
  by (simp_all add: is_multichannel_def channels_def shape_rgb_def two_channel_def)

lemma zeros6: "replicate 6 (0::nat) = [0, 0, 0, 0, 0, 0]"
  by (simp add: numeral_eq_Suc)

lemma to_rgb_result_two_channel:
  "to_rgb_result two_channel NoWavelengths
   = Inr \<lparr>shape = [1, 2, 3], dtype = UInt16, data = [0, 0, 0, 255, 255, 255]\<rparr>"
  by (simp add: to_rgb_result_def two_channel_shape identify_rgbs_def default_tints_def
      bind_err_def py_index_def zeros_uint16_def iadd_uint16_def upt_rec
      two_channel_first two_channel_second two_channel_green two_channel_magenta
      zeros6)

text \<open>
  On two channels that are not flat the green and the magenta image add up, and the
  final normalization keeps the maximum at 255.
\<close>

lemma to_rgb_two_channel:
  "to_rgb two_channel NoWavelengths True =
     Inr \<lparr>shape = [1, 2, 3], dtype = UInt8, data = map Some [0, 0, 0, 255, 255, 255]\<rparr>"
  by (simp add: to_rgb_def to_rgb_result_two_channel two_channel_shape bind_err_def amax_def
      true_divide_def trunc_uint8_def)

subsection \<open>Claims about to\_rgb\<close>

lemma to_rgb_grayscale_raises:
  assumes "\<not> is_multichannel img"
  shows "to_rgb img NoWavelengths do_normalize = Inl UnboundLocalError"
  using assms
  by (simp add: to_rgb_def to_rgb_result_def channels_def identify_rgbs_def default_tints_def
      bind_err_def read_local_def)

text \<open>
  Claim C1 (the claim is right, the code is not): \<^verbatim>\<open>to_rgb\<close> on a single-channel image
  with \<^verbatim>\<open>wavelengths=None\<close> and \<^verbatim>\<open>normalize=True\<close> must return a green-tinted image.
  The branch for such an image calls \<^verbatim>\<open>_monochannel_to_rgb(image, rgbs[i])\<close>, and
  \<open>i\<close> is assigned only by the loop of the other branch: the read raises. The
  docstring promises "Greyscale images will always give 8-bit RGB". On the 2 x 3
  grayscale frame:
\<close>

theorem to_rgb_grayscale_unbound:
  "to_rgb gray_frame NoWavelengths True = Inl UnboundLocalError"
  by (rule to_rgb_grayscale_raises) (simp add: is_multichannel_def gray_frame_def)

text \<open>
  Claim C8: for a multichannel image, \<^verbatim>\<open>to_rgb\<close> fails with InsufficientTints when
  fewer wavelengths are supplied than the image has channels (a lone number counts
  as one wavelength).
\<close>

theorem to_rgb_insufficient_tints:
  assumes "is_multichannel img" "supplied wavelengths = Some n" "n < channels img"
  shows "to_rgb img wavelengths do_normalize = Inl InsufficientTints"
proof -
  obtain rgbs where "identify_rgbs (channels img) wavelengths = Inr rgbs" "length rgbs = n"
    using identify_rgbs_supplied [OF assms(2,3)] by blast
  with assms(3) show ?thesis
    by (simp add: to_rgb_def to_rgb_result_def bind_err_def)
qed

theorem to_rgb_insufficient_tints_witness:
  "is_multichannel two_channel \<and> supplied (Wavelengths [500]) = Some 1
   \<and> 1 < channels two_channel
   \<and> to_rgb two_channel (Wavelengths [500]) True = Inl InsufficientTints"
proof -
  have a: "is_multichannel two_channel"
    by (simp add: is_multichannel_def two_channel_def)
  have b: "supplied (Wavelengths [500]) = Some 1" by simp
  have c: "1 < channels two_channel"
    by (simp add: channels_def is_multichannel_def two_channel_def)
  show ?thesis
    using a b c to_rgb_insufficient_tints [OF a b c, of True] by simp
qed

text \<open>
  Claim C9: the last block of \<^verbatim>\<open>to_rgb\<close> divides \<open>result\<close> by its maximum with no
  guard. For a multichannel image whose channels are all flat (and not empty), with
  \<^verbatim>\<open>normalize=True\<close> and enough tints, \<open>result\<close> is all zeros, the divisor
  \<^verbatim>\<open>result.max()\<close> is 0, every quotient is 0/0, and no element of the output is a
  defined byte.
\<close>

theorem to_rgb_flat_channels_nan:
  assumes "is_multichannel img" "wf_array img" "0 < prod_list (tl (shape img))"
    and "\<forall>i<channels img. \<exists>c. \<forall>x\<in>set (data (subarray img i)). x = c"
    and "identify_rgbs (channels img) wavelengths = Inr rgbs" "length rgbs = channels img"
  shows "to_rgb_result img wavelengths = Inr (zeros_uint16 (shape_rgb img))
       \<and> amax (data (zeros_uint16 (shape_rgb img))) = Inr 0
       \<and> to_rgb img wavelengths True =
           Inr \<lparr>shape = shape_rgb img, dtype = UInt8,
                data = replicate (prod_list (shape_rgb img)) None\<rparr>"
proof -
  obtain n sh where sh: "shape img = n # sh"
    using assms(1) by (cases "shape img") (simp_all add: is_multichannel_def)
  have ch: "channels img = n" and srgb: "shape_rgb img = sh @ [3]"
    using assms(1) sh by (simp_all add: channels_def shape_rgb_def)
  define p where "p = prod_list sh"
  have p: "0 < p" using assms(3) sh by (simp add: p_def)
  have len: "length (data (subarray img i)) = p" if "i < n" for i
    using subarray_length [OF assms(2) sh that] by (simp add: p_def)
  have ne: "data (subarray img i) \<noteq> []" if "i < n" for i
    using len [OF that] p by auto
  have z: "zeros_uint16 (shape_rgb img) = \<lparr>shape = sh @ [3], dtype = UInt16, data = replicate (3 * p) 0\<rparr>"
    by (simp add: zeros_uint16_def srgb p_def mult.commute)
  have "\<forall>i\<in>set [0..<n]. i < length rgbs \<and> 3 * length (data (subarray img i)) = 3 * p
             \<and> data (subarray img i) \<noteq> []
             \<and> (\<exists>c. \<forall>x\<in>set (data (subarray img i)). x = c)"
    using assms(4,6) ch len ne by auto
  from accumulate_flat [OF this, of "sh @ [3]"]
  have acc: "accumulate img rgbs [0..<n] (zeros_uint16 (shape_rgb img)) = Inr (zeros_uint16 (shape_rgb img))"
    by (simp add: z)
  have r: "to_rgb_result img wavelengths = Inr (zeros_uint16 (shape_rgb img))"
    using assms(1,5,6) acc by (simp add: to_rgb_result_def bind_err_def ch)
  have m: "amax (data (zeros_uint16 (shape_rgb img))) = Inr 0"
    using p by (simp add: z amax_zeros)
  have "to_rgb img wavelengths True =
           Inr \<lparr>shape = shape_rgb img, dtype = UInt8,
                data = replicate (prod_list (shape_rgb img)) None\<rparr>"
    using assms(1) m
    by (simp add: to_rgb_def r bind_err_def) (simp add: zeros_uint16_def srgb true_divide_def)
  with r m show ?thesis by simp
qed

theorem to_rgb_flat_channels_nan_witness:
  "to_rgb_result flat_channels NoWavelengths = Inr (zeros_uint16 [1, 2, 3])
   \<and> amax (data (zeros_uint16 [1, 2, 3])) = Inr 0
   \<and> to_rgb flat_channels NoWavelengths True =
       Inr \<lparr>shape = [1, 2, 3], dtype = UInt8, data = replicate 6 None\<rparr>"
proof -
  have a: "is_multichannel flat_channels"
    by (simp add: is_multichannel_def flat_channels_def)
  have b: "wf_array flat_channels"
    by (simp add: wf_array_def flat_channels_def)
  have c: "0 < prod_list (tl (shape flat_channels))"
    by (simp add: flat_channels_def)
  have ch: "channels flat_channels = 2"
    by (simp add: channels_def a) (simp add: flat_channels_def)
  have d: "\<forall>i<channels flat_channels. \<exists>c. \<forall>x\<in>set (data (subarray flat_channels i)). x = c"
    unfolding ch by (simp add: less_Suc_eq numeral_2_eq_2 subarray_def flat_channels_def)
  have e: "identify_rgbs (channels flat_channels) NoWavelengths = Inr [(0, 255, 0), (255, 0, 255)]"
    unfolding ch by (simp add: identify_rgbs_def default_tints_def)
  have f: "length [(0, 255, 0), (255, 0, 255) :: rgb] = channels flat_channels"
    by (simp add: ch)
  have s: "shape_rgb flat_channels = [1, 2, 3]"
    by (simp add: shape_rgb_def a) (simp add: flat_channels_def)
  show ?thesis
    using to_rgb_flat_channels_nan [OF a b c d e f] by (simp add: s)
qed

end
